theory Spec2Isabelle
  imports Complex_Main
begin

section \<open>Tensor entries: float32 values\<close>

text \<open>
  The program computes on torch tensors of the default dtype float32. An entry is
  modelled as a finite real, one of the two infinities, or NaN. Arithmetic follows
  IEEE 754 on the special values (\<open>inf - inf\<close>, \<open>0 * inf\<close>, \<open>0 / 0\<close>, \<open>inf / inf\<close> and the
  square root of a negative number are NaN; every comparison with NaN is false) and
  overflows to an infinity when the exact result reaches the float32 overflow
  threshold. A finite result below the threshold is kept exact: the rounding of the
  24-bit significand, underflow and the sign of zero are not modelled.
\<close>

datatype f32 = Fin real | PInf | NInf | NaN

definition f32_max :: real where
  "f32_max = (2 - 1 / 2 ^ 23) * 2 ^ 127"

definition f32_threshold :: real where
  "f32_threshold = (2 - 1 / 2 ^ 24) * 2 ^ 127"

definition rnd :: "real \<Rightarrow> f32" where
  "rnd r = (if f32_threshold \<le> r then PInf
            else if r \<le> - f32_threshold then NInf
            else Fin r)"

fun f_neg :: "f32 \<Rightarrow> f32" where
  "f_neg (Fin a) = Fin (- a)"
| "f_neg PInf = NInf"
| "f_neg NInf = PInf"
| "f_neg NaN = NaN"

fun f_add :: "f32 \<Rightarrow> f32 \<Rightarrow> f32" where
  "f_add (Fin a) (Fin b) = rnd (a + b)"
| "f_add NaN _ = NaN"
| "f_add _ NaN = NaN"
| "f_add PInf NInf = NaN"
| "f_add NInf PInf = NaN"
| "f_add PInf _ = PInf"
| "f_add _ PInf = PInf"
| "f_add NInf _ = NInf"
| "f_add _ NInf = NInf"

definition f_sub :: "f32 \<Rightarrow> f32 \<Rightarrow> f32" where
  "f_sub a b = f_add a (f_neg b)"

text \<open>The sign of an infinite product or quotient, NaN when the finite factor is zero.\<close>

definition signed_inf :: "real \<Rightarrow> f32" where
  "signed_inf s = (if 0 < s then PInf else if s < 0 then NInf else NaN)"

fun f_mul :: "f32 \<Rightarrow> f32 \<Rightarrow> f32" where
  "f_mul (Fin a) (Fin b) = rnd (a * b)"
| "f_mul NaN _ = NaN"
| "f_mul _ NaN = NaN"
| "f_mul (Fin a) PInf = signed_inf a"
| "f_mul (Fin a) NInf = signed_inf (- a)"
| "f_mul PInf (Fin b) = signed_inf b"
| "f_mul NInf (Fin b) = signed_inf (- b)"
| "f_mul PInf PInf = PInf"
| "f_mul NInf NInf = PInf"
| "f_mul PInf NInf = NInf"
| "f_mul NInf PInf = NInf"

fun f_div :: "f32 \<Rightarrow> f32 \<Rightarrow> f32" where
  "f_div (Fin a) (Fin b) = (if b = 0 then signed_inf a else rnd (a / b))"
| "f_div NaN _ = NaN"
| "f_div _ NaN = NaN"
| "f_div (Fin a) PInf = Fin 0"
| "f_div (Fin a) NInf = Fin 0"
| "f_div PInf (Fin b) = (if 0 \<le> b then PInf else NInf)"
| "f_div NInf (Fin b) = (if 0 \<le> b then NInf else PInf)"
| "f_div PInf PInf = NaN"
| "f_div PInf NInf = NaN"
| "f_div NInf PInf = NaN"
| "f_div NInf NInf = NaN"

fun f_sqrt :: "f32 \<Rightarrow> f32" where
  "f_sqrt (Fin a) = (if a < 0 then NaN else Fin (sqrt a))"
| "f_sqrt PInf = PInf"
| "f_sqrt NInf = NaN"
| "f_sqrt NaN = NaN"



fun f_cosh :: "f32 \<Rightarrow> f32" where
  "f_cosh (Fin a) = rnd (cosh a)"
| "f_cosh PInf = PInf"
| "f_cosh NInf = PInf"
| "f_cosh NaN = NaN"

fun f_sinh :: "f32 \<Rightarrow> f32" where
  "f_sinh (Fin a) = rnd (sinh a)"
| "f_sinh PInf = PInf"
| "f_sinh NInf = NInf"
| "f_sinh NaN = NaN"

text \<open>Comparisons are boolean; any comparison with NaN is false.\<close>

fun f_lt :: "f32 \<Rightarrow> f32 \<Rightarrow> bool" where
  "f_lt (Fin a) (Fin b) = (a < b)"
| "f_lt NaN _ = False"
| "f_lt _ NaN = False"
| "f_lt _ NInf = False"
| "f_lt PInf _ = False"
| "f_lt NInf _ = True"
| "f_lt _ PInf = True"

definition f_gt :: "f32 \<Rightarrow> f32 \<Rightarrow> bool" where
  "f_gt a b = f_lt b a"

fun isnan :: "f32 \<Rightarrow> bool" where
  "isnan NaN = True"
| "isnan _ = False"

fun isinf :: "f32 \<Rightarrow> bool" where
  "isinf PInf = True"
| "isinf NInf = True"
| "isinf _ = False"

text \<open>
  \<open>t.sum()\<close> of a one-dimensional slice, accumulated from zero in index order, and
  \<open>torch.norm\<close> (the 2-norm: the square root of the sum of the squares).
\<close>

definition f_sum :: "f32 list \<Rightarrow> f32" where
  "f_sum xs = foldl f_add (Fin 0) xs"

definition f_norm :: "f32 list \<Rightarrow> f32" where
  "f_norm xs = f_sqrt (f_sum (map (\<lambda>a. f_mul a a) xs))"

section \<open>Tensors of rank one and two\<close>

type_synonym vec = "f32 list"

type_synonym matrix = "f32 list list"

datatype error = IndexError | RuntimeError

text \<open>
  A matrix is the list of its rows. Binary tensor operations of the source are applied
  to operands of one shape; torch's broadcasting of unequal shapes is not modelled
  beyond the \<open>(B, 1)\<close> against \<open>(B, D)\<close> cases the source writes out with
  \<open>unsqueeze\<close>.
\<close>

fun map3 :: "('a \<Rightarrow> 'b \<Rightarrow> 'c \<Rightarrow> 'd) \<Rightarrow> 'a list \<Rightarrow> 'b list \<Rightarrow> 'c list \<Rightarrow> 'd list" where
  "map3 f (a # as) (b # bs) (c # cs) = f a b c # map3 f as bs cs"
| "map3 f _ _ _ = []"

definition where_vec :: "bool list \<Rightarrow> vec \<Rightarrow> vec \<Rightarrow> vec" where
  "where_vec c a b = map3 (\<lambda>ci ai bi. if ci then ai else bi) c a b"

definition where_mat :: "bool list list \<Rightarrow> matrix \<Rightarrow> matrix \<Rightarrow> matrix" where
  "where_mat c a b = map3 where_vec c a b"

section \<open>Geometry primitives\<close>


text \<open>
  \<open>lorentz_scalar_product\<close>: \<open>m = x * y\<close>, then \<open>m[:, 1:].sum(dim=1) - m[:, 0]\<close>.
  Indexing column 0 of a tensor without columns raises IndexError.
\<close>

definition lorentz_row :: "vec \<Rightarrow> f32" where
  "lorentz_row m = f_sub (f_sum (tl m)) (hd m)"

definition lorentz_scalar_product :: "matrix \<Rightarrow> matrix \<Rightarrow> error + vec" where
  "lorentz_scalar_product x y =
     (let m = map2 (map2 f_mul) x y
      in if [] \<in> set m then Inl IndexError else Inr (map lorentz_row m))"

definition tangent_norm :: "matrix \<Rightarrow> error + vec" where
  "tangent_norm x =
     (case lorentz_scalar_product x x of
        Inl e \<Rightarrow> Inl e
      | Inr s \<Rightarrow> Inr (map f_sqrt s))"

text \<open>
  The tensor arithmetic \<open>exp_map\<close> and \<open>RSGD.step\<close> use: a \<open>(B, 1)\<close> column against
  a \<open>(B, D)\<close> matrix (the source's \<open>unsqueeze\<close>), and two matrices of one shape.
\<close>

definition mul_col :: "vec \<Rightarrow> matrix \<Rightarrow> matrix" where
  "mul_col c m = map2 (\<lambda>t r. map (f_mul t) r) c m"

definition div_col :: "matrix \<Rightarrow> vec \<Rightarrow> matrix" where
  "div_col m c = map2 (\<lambda>r t. map (\<lambda>a. f_div a t) r) m c"

definition add_mat :: "matrix \<Rightarrow> matrix \<Rightarrow> matrix" where
  "add_mat a b = map2 (map2 f_add) a b"

definition sub_mat :: "matrix \<Rightarrow> matrix \<Rightarrow> matrix" where
  "sub_mat a b = map2 (map2 f_sub) a b"

definition repeat_col :: "vec \<Rightarrow> matrix \<Rightarrow> bool list list" where
  "repeat_col tn x = map2 (\<lambda>t r. replicate (length r) (f_gt t (Fin 0))) tn x"

text \<open>
  \<open>exp_map\<close>: \<open>tn\<close> is the tangent norm of each row of \<open>v\<close>; \<open>repeat_col tn x\<close> is the
  mask \<open>tn.repeat(1, x.size()[-1]) > 0\<close>; the last line is the \<open>torch.where\<close>.
\<close>

definition exp_map :: "matrix \<Rightarrow> matrix \<Rightarrow> error + matrix" where
  "exp_map x v =
     (case tangent_norm v of
        Inl e \<Rightarrow> Inl e
      | Inr tn \<Rightarrow>
          (let result = add_mat (mul_col (map f_cosh tn) x)
                                (mul_col (map f_sinh tn) (div_col v tn))
           in Inr (where_mat (repeat_col tn x) result x)))"

section \<open>The Riemannian optimizer\<close>

text \<open>
  The number of columns of a tensor that has at least one row, read off its first row.
  It is applied to the metric matrix \<open>gl\<close>, which has \<open>D\<close> rows and columns with
  \<open>0 < D\<close>, and to the candidate matrix of \<open>forward\<close>.
\<close>

definition ncols :: "'a list list \<Rightarrow> nat" where
  "ncols m = (case m of [] \<Rightarrow> 0 | r # _ \<Rightarrow> length r)"

definition eye :: "nat \<Rightarrow> matrix" where
  "eye D = map (\<lambda>i. map (\<lambda>j. if i = j then Fin 1 else Fin 0) [0..<D]) [0..<D]"

text \<open>\<open>a @ b\<close>: entry \<open>(i, j)\<close> is the sum over \<open>k\<close> of \<open>a[i][k] * b[k][j]\<close>.\<close>

definition matmul :: "matrix \<Rightarrow> matrix \<Rightarrow> matrix" where
  "matmul a b =
     map (\<lambda>r. map (\<lambda>j. f_sum (map2 f_mul r (map (\<lambda>br. br ! j) b))) [0..<ncols b]) a"

text \<open>
  Lines 54 to 65 of \<open>RSGD.step\<close>, for a parameter with \<open>D\<close> columns (the \<open>D\<close> of
  \<open>B, D = p.size()\<close>): the metric matrix \<open>gl\<close> (writing \<open>gl[0, 0]\<close> raises IndexError
  when the parameter has no column), the gradient scaled by the norm of the whole
  gradient tensor, and the projection \<open>proj\<close>.
\<close>

definition metric_matrix :: "nat \<Rightarrow> error + matrix" where
  "metric_matrix D =
     (if D = 0 then Inl IndexError
      else Inr ((eye D)[0 := (eye D ! 0)[0 := Fin (- 1)]]))"

definition riemannian_grad :: "matrix \<Rightarrow> matrix \<Rightarrow> matrix" where
  "riemannian_grad gl g =
     (let grad_norm = f_norm (concat g)
      in matmul (map (map (\<lambda>a. f_div a grad_norm)) g) gl)"

definition project :: "matrix \<Rightarrow> matrix \<Rightarrow> error + matrix" where
  "project p h =
     (case lorentz_scalar_product p h of
        Inl e \<Rightarrow> Inl e
      | Inr ph \<Rightarrow>
          (case lorentz_scalar_product p p of
             Inl e \<Rightarrow> Inl e
           | Inr pp \<Rightarrow> Inr (sub_mat h (mul_col (map2 f_div ph pp) p))))"

definition tangent_update :: "nat \<Rightarrow> matrix \<Rightarrow> matrix \<Rightarrow> error + matrix" where
  "tangent_update D p g =
     (case metric_matrix D of
        Inl e \<Rightarrow> Inl e
      | Inr gl \<Rightarrow> project p (riemannian_grad gl g))"

text \<open>
  Lines 68 to 71: the elementwise \<open>torch.where\<close> on the NaN/Inf mask, then column 0 of
  every row overwritten with \<open>sqrt(1 + norm(row[1:]))\<close>. The per-row gradient norm of
  line 66 is never read and has no counterpart here.
\<close>

definition is_nan_inf :: "matrix \<Rightarrow> bool list list" where
  "is_nan_inf update = map (map (\<lambda>a. isnan a \<or> isinf a)) update"

definition nan_inf_fallback :: "matrix \<Rightarrow> matrix \<Rightarrow> matrix" where
  "nan_inf_fallback p update = where_mat (is_nan_inf update) p update"

definition dim0_of :: "matrix \<Rightarrow> vec" where
  "dim0_of m = map (\<lambda>r. f_sqrt (f_add (Fin 1) (f_norm (tl r)))) m"

definition set_col0 :: "matrix \<Rightarrow> vec \<Rightarrow> matrix" where
  "set_col0 m c = map2 (\<lambda>r d. r[0 := d]) m c"

definition step_param :: "f32 \<Rightarrow> nat \<Rightarrow> matrix \<Rightarrow> matrix \<Rightarrow> error + matrix" where
  "step_param lr D p g =
     (case tangent_update D p g of
        Inl e \<Rightarrow> Inl e
      | Inr proj \<Rightarrow>
          (case exp_map p (map (map (f_mul (f_neg lr))) proj) of
             Inl e \<Rightarrow> Inl e
           | Inr update \<Rightarrow>
               (let update = nan_inf_fallback p update
                in Inr (set_col0 update (dim0_of update)))))"

text \<open>
  A parameter is its tensor, the shape \<open>(B, D)\<close> that \<open>p.size()\<close> returns, and its
  gradient, \<open>None\<close> when \<open>p.grad is None\<close>. \<open>step\<close> runs over the parameter groups and
  their parameters in order; an exception ends it.
\<close>

record param =
  data :: matrix
  shape :: "nat \<times> nat"
  grad :: "matrix option"

record param_group =
  params :: "param list"
  learning_rate :: f32

fun seq_map :: "('a \<Rightarrow> error + 'b) \<Rightarrow> 'a list \<Rightarrow> error + 'b list" where
  "seq_map f [] = Inr []"
| "seq_map f (x # xs) =
     (case f x of
        Inl e \<Rightarrow> Inl e
      | Inr y \<Rightarrow> (case seq_map f xs of Inl e \<Rightarrow> Inl e | Inr ys \<Rightarrow> Inr (y # ys)))"

definition step_one :: "f32 \<Rightarrow> param \<Rightarrow> error + param" where
  "step_one lr p =
     (case grad p of
        None \<Rightarrow> Inr p
      | Some g \<Rightarrow>
          (let (B, D) = shape p
           in case step_param lr D (data p) g of
                Inl e \<Rightarrow> Inl e
              | Inr u \<Rightarrow> Inr (p\<lparr>data := u\<rparr>)))"

definition step_group :: "param_group \<Rightarrow> error + param_group" where
  "step_group gp =
     (case seq_map (step_one (learning_rate gp)) (params gp) of
        Inl e \<Rightarrow> Inl e
      | Inr ps \<Rightarrow> Inr (gp\<lparr>params := ps\<rparr>))"

definition step :: "param_group list \<Rightarrow> error + param_group list" where
  "step param_groups = seq_map step_group param_groups"

section \<open>The embedding model\<close>

text \<open>
  \<open>Lorentz.__init__\<close>. The values \<open>nn.init.uniform_\<close> draws are an input: \<open>sample i j\<close>
  is the value drawn for entry \<open>(i, j)\<close>. Column 0 is then overwritten as in the
  optimizer; the assignment raises IndexError on a table without columns.
\<close>

record Lorentz =
  n_items :: nat
  dim :: nat
  table :: matrix

definition uniform_weights :: "nat \<Rightarrow> nat \<Rightarrow> (nat \<Rightarrow> nat \<Rightarrow> f32) \<Rightarrow> matrix" where
  "uniform_weights n d sample = map (\<lambda>i. map (\<lambda>j. sample i j) [0..<d]) [0..<n]"

definition Lorentz_init :: "nat \<Rightarrow> nat \<Rightarrow> (nat \<Rightarrow> nat \<Rightarrow> f32) \<Rightarrow> error + Lorentz" where
  "Lorentz_init n d sample =
     (let weight = uniform_weights n d sample;
          dim0 = dim0_of weight
      in if [] \<in> set weight then Inl IndexError
         else Inr \<lparr>n_items = n, dim = d, table = set_col0 weight dim0\<rparr>)"






section \<open>The Poincare projection\<close>

text \<open>\<open>table[:, 1:] / (table[:, :1] + 1)\<close>, row by row.\<close>

definition poincare_row :: "vec \<Rightarrow> vec" where
  "poincare_row r =
     (case r of [] \<Rightarrow> [] | x0 # xs \<Rightarrow> map (\<lambda>a. f_div a (f_add x0 (Fin 1))) xs)"

definition lorentz_to_poincare :: "matrix \<Rightarrow> matrix" where
  "lorentz_to_poincare t = map poincare_row t"

section \<open>The formulas of the specification\<close>

text \<open>
  The Lorentzian scalar product of two rows as the specification writes it:
  \<open>sum(x[1:] * y[1:]) - x[0] * y[0]\<close>.
\<close>

definition lorentz_formula :: "vec \<Rightarrow> vec \<Rightarrow> f32" where
  "lorentz_formula x y = f_sub (f_sum (map2 f_mul (tl x) (tl y))) (f_mul (hd x) (hd y))"

section \<open>Row-wise views\<close>

text \<open>
  Two matrices have the same shape when they have as many rows and corresponding rows
  have the same length. \<open>self_product\<close> is the scalar product of a row with itself as
  \<open>lorentz_scalar_product v v\<close> computes it, and \<open>exp_row\<close> is what \<open>exp_map\<close> computes
  for one row with tangent norm \<open>t\<close>.
\<close>

definition same_shape :: "'a list list \<Rightarrow> 'b list list \<Rightarrow> bool" where
  "same_shape x v = list_all2 (\<lambda>xr vr. length xr = length vr) x v"

definition exp_row :: "f32 \<Rightarrow> vec \<Rightarrow> vec \<Rightarrow> vec" where
  "exp_row t xr vr =
     (if f_gt t (Fin 0)
      then map2 f_add (map (f_mul (f_cosh t)) xr) (map (f_mul (f_sinh t)) (map (\<lambda>a. f_div a t) vr))
      else xr)"

definition self_product :: "vec \<Rightarrow> f32" where
  "self_product r = lorentz_row (map2 f_mul r r)"

text \<open>
  The hyperboloid constraint on a row \<open>x\<close> within a tolerance: the scalar product of
  \<open>x\<close> with itself is a finite value at most \<open>tol\<close> away from \<open>-1\<close>.
\<close>

definition hyperboloid_constraint :: "real \<Rightarrow> vec \<Rightarrow> bool" where
  "hyperboloid_constraint tol x =
     (case lorentz_scalar_product [x] [x] of
        Inr [Fin s] \<Rightarrow> \<bar>s + 1\<bar> \<le> tol
      | _ \<Rightarrow> False)"

text \<open>
  A matrix has shape \<open>(B, D)\<close> when it has \<open>B\<close> rows of length \<open>D\<close>.
\<close>

definition has_shape :: "nat \<Rightarrow> nat \<Rightarrow> 'a list list \<Rightarrow> bool" where
  "has_shape B D m = (length m = B \<and> list_all (\<lambda>r. length r = D) m)"

text \<open>
  The candidate update of line 67, \<open>exp_map(p, -learning_rate * proj)\<close>, and one entry
  of the result of lines 68 and 69: the candidate entry unless it is NaN or infinite,
  the entry of the parameter otherwise. A parameter with a gradient is well formed when
  it has at least one column and its tensor and its gradient have the shape it records.
\<close>

definition candidate_update :: "f32 \<Rightarrow> nat \<Rightarrow> matrix \<Rightarrow> matrix \<Rightarrow> error + matrix" where
  "candidate_update lr D p g =
     (case tangent_update D p g of
        Inl e \<Rightarrow> Inl e
      | Inr proj \<Rightarrow> exp_map p (map (map (f_mul (f_neg lr))) proj))"

definition keep_finite :: "f32 \<Rightarrow> f32 \<Rightarrow> f32" where
  "keep_finite pe ue = (if isnan ue \<or> isinf ue then pe else ue)"

definition wf_param :: "param \<Rightarrow> bool" where
  "wf_param p =
     (case grad p of
        None \<Rightarrow> True
      | Some g \<Rightarrow>
          0 < snd (shape p) \<and> has_shape (fst (shape p)) (snd (shape p)) (data p) \<and>
          has_shape (fst (shape p)) (snd (shape p)) g)"









text \<open>
  The tangent update as the specification writes it. \<open>minkowski\<close> is the metric
  signature matrix, the identity except for the entry \<open>(0, 0) = -1\<close>. One row of the
  Riemannian gradient \<open>h\<close> is the row of the gradient, divided by the norm \<open>n\<close> of the
  whole gradient tensor, times that matrix; the projection of a row is
  \<open>h - (<p, h> / <p, p>) * p\<close>.
\<close>

definition minkowski :: "nat \<Rightarrow> nat \<Rightarrow> f32" where
  "minkowski i j = (if i = j then (if i = 0 then Fin (- 1) else Fin 1) else Fin 0)"

definition spec_riemannian_row :: "nat \<Rightarrow> f32 \<Rightarrow> vec \<Rightarrow> vec" where
  "spec_riemannian_row D n gr =
     map (\<lambda>j. f_sum (map (\<lambda>k. f_mul (f_div (gr ! k) n) (minkowski k j)) [0..<D])) [0..<D]"

definition spec_project_row :: "vec \<Rightarrow> vec \<Rightarrow> vec" where
  "spec_project_row pr hr =
     map2 f_sub hr (map (f_mul (f_div (lorentz_formula pr hr) (lorentz_formula pr pr))) pr)"

definition spec_tangent_update :: "nat \<Rightarrow> matrix \<Rightarrow> matrix \<Rightarrow> matrix" where
  "spec_tangent_update D p g =
     map2 (\<lambda>pr gr. spec_project_row pr (spec_riemannian_row D (f_norm (concat g)) gr)) p g"

section \<open>Properties\<close>

lemma f_mul_commute: "f_mul a b = f_mul b a"
  by (cases a; cases b) (simp_all add: mult.commute)

subsection \<open>Lists and rounding\<close>

lemma f32_threshold_val: "f32_threshold = 340282356779733661637539395458142568448"
  by (simp add: f32_threshold_def)

lemma rnd_small: "\<bar>r\<bar> < 2 ^ 127 \<Longrightarrow> rnd r = Fin r"
  unfolding rnd_def f32_threshold_def by auto

lemma map3_length:
  "length (map3 f as bs cs) = min (length as) (min (length bs) (length cs))"
  by (induction f as bs cs rule: map3.induct) auto

lemma map3_nth:
  "i < length as \<Longrightarrow> i < length bs \<Longrightarrow> i < length cs \<Longrightarrow>
   map3 f as bs cs ! i = f (as ! i) (bs ! i) (cs ! i)"
proof (induction f as bs cs arbitrary: i rule: map3.induct)
  case (1 f a as b bs c cs)
  then show ?case by (cases i) auto
qed auto

lemma where_vec_nth:
  "i < length c \<Longrightarrow> i < length a \<Longrightarrow> i < length b \<Longrightarrow>
   where_vec c a b ! i = (if c ! i then a ! i else b ! i)"
  by (simp add: where_vec_def map3_nth)

lemma where_vec_length:
  "length (where_vec c a b) = min (length c) (min (length a) (length b))"
  by (simp add: where_vec_def map3_length)

lemma where_vec_all_false:
  assumes "length a = length b"
  shows "where_vec (replicate (length b) False) a b = b"
  by (rule nth_equalityI) (simp_all add: where_vec_length where_vec_nth assms)

lemma lorentz_rows_nonempty:
  "length x = length y \<Longrightarrow> [] \<notin> set x \<Longrightarrow> [] \<notin> set y \<Longrightarrow>
   [] \<notin> set (map2 (map2 f_mul) x y)"
  by (induction x y rule: list_induct2) auto

lemma map2_f_mul_commute: "map2 f_mul a b = map2 f_mul b a"
proof (induction a arbitrary: b)
  case (Cons x a)
  then show ?case by (cases b) (simp_all add: f_mul_commute)
qed simp

lemma map2_rows_commute: "map2 (map2 f_mul) x y = map2 (map2 f_mul) y x"
proof (induction x arbitrary: y)
  case (Cons r x)
  then show ?case by (cases y) (simp_all add: map2_f_mul_commute)
qed simp

lemma lorentz_row_formula:
  "x \<noteq> [] \<Longrightarrow> y \<noteq> [] \<Longrightarrow> lorentz_row (map2 f_mul x y) = lorentz_formula x y"
  by (cases x; cases y) (simp_all add: lorentz_row_def lorentz_formula_def)

lemma lorentz_rows_formula:
  "length x = length y \<Longrightarrow> [] \<notin> set x \<Longrightarrow> [] \<notin> set y \<Longrightarrow>
   map lorentz_row (map2 (map2 f_mul) x y) = map2 lorentz_formula x y"
  by (induction x y rule: list_induct2) (auto simp: lorentz_row_formula)

subsection \<open>The Lorentzian scalar product\<close>

text \<open>
  C9. \<open>lorentz_scalar_product\<close> is symmetric, \<open>lorentz_scalar_product x y =
  lorentz_scalar_product y x\<close>, and on two batches of one shape whose rows have at least
  one coordinate it returns, for each batch row, \<open>sum(x[1:] * y[1:]) - x[0] * y[0]\<close>.
\<close>

theorem lorentz_scalar_product_symmetric:
  "lorentz_scalar_product x y = lorentz_scalar_product y x \<and>
   (length x = length y \<and> [] \<notin> set x \<and> [] \<notin> set y \<longrightarrow>
      lorentz_scalar_product x y = Inr (map2 lorentz_formula x y))"
proof
  show "lorentz_scalar_product x y = lorentz_scalar_product y x"
    unfolding lorentz_scalar_product_def by (simp add: map2_rows_commute)
  show "length x = length y \<and> [] \<notin> set x \<and> [] \<notin> set y \<longrightarrow>
      lorentz_scalar_product x y = Inr (map2 lorentz_formula x y)"
    unfolding lorentz_scalar_product_def Let_def
    using lorentz_rows_nonempty[of x y] lorentz_rows_formula[of x y] by auto
qed

theorem lorentz_scalar_product_symmetric_witness:
  "lorentz_scalar_product [[Fin 2, Fin 3, Fin 1]] [[Fin 5, Fin 1, Fin 4]] =
     lorentz_scalar_product [[Fin 5, Fin 1, Fin 4]] [[Fin 2, Fin 3, Fin 1]] \<and>
   lorentz_scalar_product [[Fin 2, Fin 3, Fin 1]] [[Fin 5, Fin 1, Fin 4]] = Inr [Fin (- 3)]"
proof -
  let ?x = "[[Fin 2, Fin 3, Fin 1]]" and ?y = "[[Fin 5, Fin 1, Fin 4]]"
  have shape: "length ?x = length ?y \<and> [] \<notin> set ?x \<and> [] \<notin> set ?y"
    by simp
  have sym: "lorentz_scalar_product ?x ?y = lorentz_scalar_product ?y ?x"
    using lorentz_scalar_product_symmetric [of ?x ?y] by blast
  have "lorentz_scalar_product ?x ?y = Inr (map2 lorentz_formula ?x ?y)"
    using lorentz_scalar_product_symmetric [of ?x ?y] shape by blast
  also have "map2 lorentz_formula ?x ?y = [Fin (- 3)]"
    by (simp add: lorentz_formula_def f_sum_def f_sub_def rnd_small)
  finally show ?thesis using sym by simp
qed

lemma where_vec_replicate:
  assumes "length a = n" and "length b = n"
  shows "where_vec (replicate n c) a b = (if c then a else b)"
  by (rule nth_equalityI) (simp_all add: where_vec_length where_vec_nth assms)

lemma self_products:
  "[] \<notin> set v \<Longrightarrow> lorentz_scalar_product v v = Inr (map self_product v)"
  unfolding lorentz_scalar_product_def Let_def self_product_def
  by (induction v) (auto simp: zip_same_conv_map)

lemma tangent_norm_rows:
  "[] \<notin> set v \<Longrightarrow> tangent_norm v = Inr (map (\<lambda>r. f_sqrt (self_product r)) v)"
  by (simp add: tangent_norm_def self_products)

lemma exp_map_where_rows:
  "same_shape x v \<Longrightarrow>
   where_mat (repeat_col (map g v) x)
     (add_mat (mul_col (map f_cosh (map g v)) x)
              (mul_col (map f_sinh (map g v)) (div_col v (map g v)))) x =
   map2 (\<lambda>xr vr. exp_row (g vr) xr vr) x v"
  unfolding same_shape_def
proof (induction x v rule: list_all2_induct)
  case Nil
  then show ?case
    by (simp add: where_mat_def repeat_col_def add_mat_def mul_col_def div_col_def)
next
  case (Cons xr x vr v)
  have "where_vec (replicate (length xr) (f_gt (g vr) (Fin 0)))
          (map2 f_add (map (f_mul (f_cosh (g vr))) xr)
             (map (f_mul (f_sinh (g vr))) (map (\<lambda>a. f_div a (g vr)) vr))) xr =
        exp_row (g vr) xr vr"
    unfolding exp_row_def
    by (rule where_vec_replicate) (simp_all add: Cons.hyps(1))
  with Cons.IH show ?case
    by (simp add: where_mat_def repeat_col_def add_mat_def mul_col_def div_col_def)
qed

lemma exp_map_rows:
  assumes "same_shape x v" and "[] \<notin> set v"
  shows "exp_map x v = Inr (map2 (\<lambda>xr vr. exp_row (f_sqrt (self_product vr)) xr vr) x v)"
  using exp_map_where_rows [OF assms(1), of "\<lambda>r. f_sqrt (self_product r)"]
  by (simp add: exp_map_def tangent_norm_rows [OF assms(2)])


lemma rnd_zero: "rnd 0 = Fin 0"
  by (simp add: rnd_small)

lemma f_sum_zeros: "foldl f_add (Fin 0) (replicate n (Fin 0)) = Fin 0"
  by (induction n) (simp_all add: rnd_zero)

lemma self_product_zeros: "0 < n \<Longrightarrow> self_product (replicate n (Fin 0)) = Fin 0"
  by (cases n)
     (simp_all add: self_product_def lorentz_row_def f_sum_def f_sub_def rnd_zero
        zip_same_conv_map f_sum_zeros)

lemma zero_row: "map (\<lambda>_. Fin 0) r = replicate (length r) (Fin 0)"
  by (induction r) simp_all

lemma exp_row_zero: "exp_row (Fin 0) xr vr = xr"
  by (simp add: exp_row_def f_gt_def)

lemma map2_left: "length x = length v \<Longrightarrow> map2 (\<lambda>xr vr. xr) x v = x"
  by (induction x v rule: list_induct2) simp_all

subsection \<open>The exponential map\<close>

text \<open>
  C7. For every base point \<open>x\<close> (a batch whose rows have at least one coordinate),
  \<open>exp_map x 0\<close> returns \<open>x\<close> unchanged; more generally, whenever the tangent norm of
  every row of the displacement is exactly zero, \<open>exp_map\<close> returns \<open>x\<close>: the
  \<open>torch.where\<close> on \<open>tn > 0\<close> discards the \<open>0 / 0\<close> of the direction.
\<close>

theorem exp_map_zero_displacement:
  "([] \<notin> set x \<longrightarrow> exp_map x (map (map (\<lambda>_. Fin 0)) x) = Inr x) \<and>
   (same_shape x v \<and> [] \<notin> set v \<and> tangent_norm v = Inr (replicate (length v) (Fin 0)) \<longrightarrow>
      exp_map x v = Inr x)"
proof (intro conjI impI)
  assume nonempty: "[] \<notin> set x"
  let ?v = "map (map (\<lambda>_. Fin 0)) x"
  have shape: "same_shape x ?v"
    unfolding same_shape_def by (induction x) simp_all
  have v_nonempty: "[] \<notin> set ?v"
    using nonempty by auto
  have "map2 (\<lambda>xr vr. exp_row (f_sqrt (self_product vr)) xr vr) x ?v = x"
    using nonempty
    by (induction x) (auto simp: zero_row self_product_zeros exp_row_zero)
  then show "exp_map x ?v = Inr x"
    by (simp add: exp_map_rows [OF shape v_nonempty])
next
  assume h: "same_shape x v \<and> [] \<notin> set v \<and>
    tangent_norm v = Inr (replicate (length v) (Fin 0))"
  then have len: "length x = length v"
    by (auto simp: same_shape_def dest: list_all2_lengthD)
  from h have ne: "[] \<notin> set v" and shape: "same_shape x v"
    and tnv: "tangent_norm v = Inr (replicate (length v) (Fin 0))"
    by blast+
  have "map (\<lambda>r. f_sqrt (self_product r)) v = replicate (length v) (Fin 0)"
    using tangent_norm_rows [OF ne] tnv by simp
  then have tn: "\<And>vr. vr \<in> set v \<Longrightarrow> f_sqrt (self_product vr) = Fin 0"
    by (metis (mono_tags, lifting) in_set_replicate image_eqI list.set_map)
  have "map2 (\<lambda>xr vr. exp_row (f_sqrt (self_product vr)) xr vr) x v =
        map2 (\<lambda>xr vr. xr) x v"
    by (rule map_cong [OF refl]) (auto simp: tn exp_row_zero dest: set_zip_rightD)
  then show "exp_map x v = Inr x"
    by (simp add: exp_map_rows [OF shape ne] map2_left [OF len])
qed

theorem exp_map_zero_displacement_witness:
  "exp_map [[Fin 2, Fin 3]] [[Fin 0, Fin 0]] = Inr [[Fin 2, Fin 3]] \<and>
   tangent_norm [[Fin 1, Fin 1]] = Inr [Fin 0] \<and>
   exp_map [[Fin 2, Fin 3]] [[Fin 1, Fin 1]] = Inr [[Fin 2, Fin 3]]"
proof -
  let ?x = "[[Fin 2, Fin 3]]" and ?v = "[[Fin 1, Fin 1]]"
  have first: "exp_map ?x (map (map (\<lambda>_. Fin 0)) ?x) = Inr ?x"
    using exp_map_zero_displacement [of ?x ?v] by simp
  have tn: "tangent_norm ?v = Inr [Fin 0]"
    by (simp add: tangent_norm_def lorentz_scalar_product_def lorentz_row_def
        f_sum_def f_sub_def rnd_small)
  have "same_shape ?x ?v \<and> [] \<notin> set ?v \<and>
    tangent_norm ?v = Inr (replicate (length ?v) (Fin 0))"
    by (simp add: tn same_shape_def)
  then have "exp_map ?x ?v = Inr ?x"
    using exp_map_zero_displacement [of ?x ?v] by blast
  with first tn show ?thesis by simp
qed

text \<open>
  C10. For every base point \<open>x\<close> and displacement \<open>v\<close> of the same shape, \<open>exp_map\<close>
  returns a batch, and each row whose tangent norm is not strictly positive is the row
  of \<open>x\<close> unchanged. This covers the rows of negative self-product, whose tangent norm
  is NaN.
\<close>

theorem exp_map_fallback:
  assumes "same_shape x v" and "[] \<notin> set v"
  shows "\<exists>s tn r. lorentz_scalar_product v v = Inr s \<and> tangent_norm v = Inr tn \<and>
           exp_map x v = Inr r \<and>
           length s = length x \<and> length tn = length x \<and> length r = length x \<and>
           (\<forall>i<length x. f_lt (s ! i) (Fin 0) \<longrightarrow> tn ! i = NaN) \<and>
           (\<forall>i<length x. \<not> f_gt (tn ! i) (Fin 0) \<longrightarrow> r ! i = x ! i)"
proof -
  let ?s = "map self_product v"
  let ?tn = "map (\<lambda>r. f_sqrt (self_product r)) v"
  let ?r = "map2 (\<lambda>xr vr. exp_row (f_sqrt (self_product vr)) xr vr) x v"
  have len: "length x = length v"
    using assms(1) by (auto simp: same_shape_def dest: list_all2_lengthD)
  have neg: "f_sqrt a = NaN" if "f_lt a (Fin 0)" for a
    using that by (cases a) simp_all
  have "\<forall>i<length x. f_lt (?s ! i) (Fin 0) \<longrightarrow> ?tn ! i = NaN"
    by (simp add: len neg)
  moreover have "\<forall>i<length x. \<not> f_gt (?tn ! i) (Fin 0) \<longrightarrow> ?r ! i = x ! i"
    by (simp add: len exp_row_def)
  ultimately show ?thesis
    using self_products [OF assms(2)] tangent_norm_rows [OF assms(2)]
      exp_map_rows [OF assms] len
    by (intro exI [of _ ?s] exI [of _ ?tn] exI [of _ ?r]) simp
qed

theorem exp_map_fallback_witness:
  "lorentz_scalar_product [[Fin 1, Fin 0]] [[Fin 1, Fin 0]] = Inr [Fin (- 1)] \<and>
   tangent_norm [[Fin 1, Fin 0]] = Inr [NaN] \<and>
   exp_map [[Fin 2, Fin 3]] [[Fin 1, Fin 0]] = Inr [[Fin 2, Fin 3]]"
proof -
  let ?x = "[[Fin 2, Fin 3]]" and ?v = "[[Fin 1, Fin 0]]"
  have s: "lorentz_scalar_product ?v ?v = Inr [Fin (- 1)]"
    by (simp add: lorentz_scalar_product_def lorentz_row_def f_sum_def f_sub_def rnd_small)
  then have tn: "tangent_norm ?v = Inr [NaN]"
    by (simp add: tangent_norm_def)
  have "same_shape ?x ?v" and "[] \<notin> set ?v"
    by (simp_all add: same_shape_def)
  from exp_map_fallback [OF this] obtain r where
    r: "exp_map ?x ?v = Inr r" "length r = length ?x"
      "\<forall>i<length ?x. \<not> f_gt ([NaN] ! i) (Fin 0) \<longrightarrow> r ! i = ?x ! i"
    using tn by auto
  then have "r ! 0 = [Fin 2, Fin 3]"
    by (simp add: f_gt_def)
  with r(2) have "r = ?x"
    by (cases r) simp_all
  with r(1) s tn show ?thesis by simp
qed

lemma sqrt_eqI: "0 \<le> y \<Longrightarrow> y * y = x \<Longrightarrow> sqrt x = y"
  by (rule real_sqrt_unique) (simp_all add: power2_eq_square)

lemma sqrt_drawn: "sqrt (1 / 4000000) = 1 / 2000"
  by (rule sqrt_eqI) simp_all

lemma sqrt_nine: "sqrt 9 = 3"
  by (rule sqrt_eqI) simp_all

lemma upt_0_2: "[0..<2] = [0, 1]"
  by (simp add: upt_rec)

lemma upt_0_3: "[0..<3] = [0, 1, 2]"
  by (simp add: upt_rec)

subsection \<open>The hyperboloid constraint\<close>

text \<open>
  C2. The constructor overwrites coordinate 0 with \<open>sqrt(1 + norm(row[1:]))\<close>, the norm
  not squared. With the default \<open>init_range = 0.001\<close>, one entity, two columns and the
  drawn values \<open>0.0005\<close>, the row it builds is \<open>[sqrt 1.0005, 0.0005]\<close>, whose scalar
  product with itself is \<open>-1.00049975\<close>: farther from \<open>-1\<close> than the tolerance
  \<open>1e-5\<close>.
\<close>

theorem Lorentz_init_off_hyperboloid:
  "Lorentz_init 1 2 (\<lambda>i j. Fin (1 / 2000)) =
     Inr \<lparr>n_items = 1, dim = 2, table = [[Fin (sqrt (2001 / 2000)), Fin (1 / 2000)]]\<rparr> \<and>
   lorentz_scalar_product [[Fin (sqrt (2001 / 2000)), Fin (1 / 2000)]]
     [[Fin (sqrt (2001 / 2000)), Fin (1 / 2000)]] = Inr [Fin (- (4001999 / 4000000))] \<and>
   \<not> hyperboloid_constraint (1 / 100000) [Fin (sqrt (2001 / 2000)), Fin (1 / 2000)]"
proof -
  have init: "Lorentz_init 1 2 (\<lambda>i j. Fin (1 / 2000)) =
     Inr \<lparr>n_items = 1, dim = 2, table = [[Fin (sqrt (2001 / 2000)), Fin (1 / 2000)]]\<rparr>"
    by (simp add: Lorentz_init_def uniform_weights_def dim0_of_def set_col0_def f_norm_def
        f_sum_def rnd_small sqrt_drawn upt_0_2)
  have prod: "lorentz_scalar_product [[Fin (sqrt (2001 / 2000)), Fin (1 / 2000)]]
     [[Fin (sqrt (2001 / 2000)), Fin (1 / 2000)]] = Inr [Fin (- (4001999 / 4000000))]"
    by (simp add: lorentz_scalar_product_def lorentz_row_def f_sum_def f_sub_def rnd_small)
  show ?thesis
    using init prod by (simp add: hyperboloid_constraint_def)
qed

text \<open>
  C1. \<open>RSGD.step\<close> overwrites coordinate 0 with \<open>sqrt(1 + norm(row[1:]))\<close> as well.
  On the table \<open>[[2, 3]]\<close> (a row the constructor builds from the drawn value \<open>3\<close>)
  with gradient \<open>[[1, 0]]\<close> and learning rate \<open>0.1\<close>, one step returns the table
  \<open>[[2, 3]]\<close>, whose row has the scalar product \<open>5\<close> with itself, not \<open>-1\<close>.
\<close>

theorem step_off_hyperboloid:
  "step [\<lparr>params = [\<lparr>data = [[Fin 2, Fin 3]], shape = (1, 2),
                             grad = Some [[Fin 1, Fin 0]]\<rparr>],
          learning_rate = Fin (1 / 10)\<rparr>] =
     Inr [\<lparr>params = [\<lparr>data = [[Fin 2, Fin 3]], shape = (1, 2),
                            grad = Some [[Fin 1, Fin 0]]\<rparr>],
          learning_rate = Fin (1 / 10)\<rparr>] \<and>
   lorentz_scalar_product [[Fin 2, Fin 3]] [[Fin 2, Fin 3]] = Inr [Fin 5] \<and>
   \<not> hyperboloid_constraint (1 / 100000) [Fin 2, Fin 3]"
proof -
  let ?p = "[[Fin 2, Fin 3]]" and ?g = "[[Fin 1, Fin 0]]"
  have gl: "metric_matrix 2 = Inr [[Fin (- 1), Fin 0], [Fin 0, Fin 1]]"
    by (simp add: metric_matrix_def eye_def upt_0_2)
  have h: "riemannian_grad [[Fin (- 1), Fin 0], [Fin 0, Fin 1]] ?g = [[Fin (- 1), Fin 0]]"
    by (simp add: riemannian_grad_def f_norm_def f_sum_def matmul_def ncols_def upt_0_2
        rnd_small)
  have pp: "lorentz_scalar_product ?p ?p = Inr [Fin 5]"
    by (simp add: lorentz_scalar_product_def lorentz_row_def f_sum_def f_sub_def rnd_small)
  have ph: "lorentz_scalar_product ?p [[Fin (- 1), Fin 0]] = Inr [Fin 2]"
    by (simp add: lorentz_scalar_product_def lorentz_row_def f_sum_def f_sub_def rnd_small)
  have proj: "tangent_update 2 ?p ?g = Inr [[Fin (- (9 / 5)), Fin (- (6 / 5))]]"
    unfolding tangent_update_def gl
    by (simp add: h project_def pp ph sub_mat_def mul_col_def f_sub_def rnd_small)
  have tn: "tangent_norm [[Fin (9 / 50), Fin (3 / 25)]] = Inr [NaN]"
    by (simp add: tangent_norm_def lorentz_scalar_product_def lorentz_row_def f_sum_def
        f_sub_def rnd_small)
  have em: "exp_map ?p [[Fin (9 / 50), Fin (3 / 25)]] = Inr ?p"
    by (simp add: exp_map_def tn where_mat_def where_vec_def repeat_col_def add_mat_def
        mul_col_def div_col_def f_gt_def)
  have fb: "nan_inf_fallback ?p ?p = ?p"
    by (simp add: nan_inf_fallback_def is_nan_inf_def where_mat_def where_vec_def)
  have d0: "dim0_of ?p = [Fin 2]"
    by (simp add: dim0_of_def f_norm_def f_sum_def rnd_small sqrt_nine)
  have "step_param (Fin (1 / 10)) 2 ?p ?g = Inr ?p"
    by (simp add: step_param_def proj rnd_small em fb d0 set_col0_def)
  then have "step [\<lparr>params = [\<lparr>data = ?p, shape = (1, 2), grad = Some ?g\<rparr>],
          learning_rate = Fin (1 / 10)\<rparr>] =
     Inr [\<lparr>params = [\<lparr>data = ?p, shape = (1, 2), grad = Some ?g\<rparr>],
          learning_rate = Fin (1 / 10)\<rparr>]"
    by (simp add: step_def step_group_def step_one_def)
  then show ?thesis
    using pp by (simp add: hyperboloid_constraint_def)
qed

subsection \<open>The tangent update\<close>

lemma metric_matrix_minkowski:
  assumes "0 < D"
  shows "metric_matrix D = Inr (map (\<lambda>k. map (minkowski k) [0..<D]) [0..<D])"
proof -
  let ?gl = "(eye D)[0 := (eye D ! 0)[0 := Fin (- 1)]]"
  have "?gl = map (\<lambda>k. map (minkowski k) [0..<D]) [0..<D]"
  proof (rule nth_equalityI)
    show "length ?gl = length (map (\<lambda>k. map (minkowski k) [0..<D]) [0..<D])"
      by (simp add: eye_def)
  next
    fix k
    assume "k < length ?gl"
    then have k: "k < D"
      by (simp add: eye_def)
    show "?gl ! k = map (\<lambda>k. map (minkowski k) [0..<D]) [0..<D] ! k"
    proof (rule nth_equalityI)
      show "length (?gl ! k) = length (map (\<lambda>k. map (minkowski k) [0..<D]) [0..<D] ! k)"
        using k assms by (cases "k = 0") (simp_all add: eye_def)
    next
      fix j
      assume "j < length (?gl ! k)"
      then have j: "j < D"
        using k assms by (cases "k = 0") (simp_all add: eye_def)
      show "?gl ! k ! j = map (\<lambda>k. map (minkowski k) [0..<D]) [0..<D] ! k ! j"
        using k j assms
        by (cases "k = 0"; cases "j = 0") (auto simp: eye_def minkowski_def)
    qed
  qed
  then show ?thesis
    using assms by (simp add: metric_matrix_def)
qed

lemma ncols_minkowski: "0 < D \<Longrightarrow> ncols (map (\<lambda>k. map (minkowski k) [0..<D]) [0..<D]) = D"
  by (simp add: ncols_def upt_conv_Cons)

lemma matmul_row:
  assumes "length r = D" and "j < D"
  shows "map2 f_mul (map (\<lambda>a. f_div a n) r)
           (map (\<lambda>br. br ! j) (map (\<lambda>k. map (minkowski k) [0..<D]) [0..<D])) =
         map (\<lambda>k. f_mul (f_div (r ! k) n) (minkowski k j)) [0..<D]"
  using assms by (intro nth_equalityI) simp_all

lemma riemannian_grad_rows:
  assumes "0 < D" and "list_all (\<lambda>r. length r = D) g"
  shows "riemannian_grad (map (\<lambda>k. map (minkowski k) [0..<D]) [0..<D]) g =
         map (spec_riemannian_row D (f_norm (concat g))) g"
proof -
  have "map (\<lambda>j. f_sum (map2 f_mul (map (\<lambda>a. f_div a n) r)
            (map (\<lambda>br. br ! j) (map (\<lambda>k. map (minkowski k) [0..<D]) [0..<D])))) [0..<D] =
        spec_riemannian_row D n r" if "length r = D" for r n
    unfolding spec_riemannian_row_def
  proof (rule map_cong [OF refl])
    fix j
    assume "j \<in> set [0..<D]"
    then have "j < D" by simp
    from matmul_row [OF that this]
    show "f_sum (map2 f_mul (map (\<lambda>a. f_div a n) r)
            (map (\<lambda>br. br ! j) (map (\<lambda>k. map (minkowski k) [0..<D]) [0..<D]))) =
          f_sum (map (\<lambda>k. f_mul (f_div (r ! k) n) (minkowski k j)) [0..<D])"
      by (simp only:)
  qed
  then show ?thesis
    using assms
    by (simp add: riemannian_grad_def matmul_def ncols_minkowski list_all_iff)
qed

lemma project_rows:
  assumes "length p = length h" and "[] \<notin> set p" and "[] \<notin> set h"
  shows "project p h = Inr (map2 spec_project_row p h)"
proof -
  have ph: "lorentz_scalar_product p h = Inr (map2 lorentz_formula p h)"
    unfolding lorentz_scalar_product_def Let_def
    using lorentz_rows_nonempty [OF assms] lorentz_rows_formula [OF assms] by simp
  have pp: "lorentz_scalar_product p p = Inr (map2 lorentz_formula p p)"
    unfolding lorentz_scalar_product_def Let_def
    using lorentz_rows_nonempty [OF refl assms(2) assms(2)]
      lorentz_rows_formula [OF refl assms(2) assms(2)] by simp
  have "sub_mat h (mul_col (map2 f_div (map2 lorentz_formula p h) (map2 lorentz_formula p p)) p) =
        map2 spec_project_row p h"
    using assms(1)
    by (induction p h rule: list_induct2)
       (simp_all add: sub_mat_def mul_col_def spec_project_row_def)
  then show ?thesis
    by (simp add: project_def ph pp)
qed

lemma has_shape_nonempty: "has_shape B D m \<Longrightarrow> 0 < D \<Longrightarrow> [] \<notin> set m"
  by (auto simp: has_shape_def list_all_iff)

lemma tangent_update_rows:
  assumes "has_shape B D p" and "has_shape B D g" and "0 < D"
  shows "tangent_update D p g = Inr (spec_tangent_update D p g)"
proof -
  from assms have p: "length p = B" "list_all (\<lambda>r. length r = D) p"
    and g: "length g = B" "list_all (\<lambda>r. length r = D) g"
    by (simp_all add: has_shape_def)
  let ?h = "map (spec_riemannian_row D (f_norm (concat g))) g"
  have row_ne: "spec_riemannian_row D n r \<noteq> []" for n r
    using assms(3) by (simp add: spec_riemannian_row_def)
  have h_ne: "[] \<notin> set ?h"
  proof
    assume "[] \<in> set ?h"
    then obtain r where "[] = spec_riemannian_row D (f_norm (concat g)) r"
      by auto
    with row_ne [of "f_norm (concat g)" r] show False by simp
  qed
  have p_ne: "[] \<notin> set p"
    by (rule has_shape_nonempty [OF assms(1) assms(3)])
  have "tangent_update D p g = project p ?h"
    by (simp add: tangent_update_def metric_matrix_minkowski [OF assms(3)]
        riemannian_grad_rows [OF assms(3) g(2)])
  also have "\<dots> = Inr (map2 spec_project_row p ?h)"
    by (rule project_rows [OF _ p_ne h_ne]) (simp add: p g)
  also have "map2 spec_project_row p ?h = spec_tangent_update D p g"
    by (auto simp: spec_tangent_update_def zip_map2)
  finally show ?thesis .
qed

lemma sqrt_25: "sqrt 25 = 5"
  by (rule sqrt_eqI) simp_all

text \<open>
  C5. For a parameter of shape \<open>(B, D)\<close> with at least one column and a gradient of the
  same shape, \<open>RSGD.step\<close> computes the tangent update so: the gradient divided by the
  norm of the whole gradient tensor and multiplied by the Minkowski metric matrix
  gives \<open>h\<close>, and the projection is \<open>h - (<p, h> / <p, p>) * p\<close>; the step then
  retracts along \<open>-learning_rate\<close> times this projection.
\<close>

theorem tangent_update_formula:
  assumes "has_shape B D p" and "has_shape B D g" and "0 < D"
  shows "tangent_update D p g = Inr (spec_tangent_update D p g) \<and>
         step_param lr D p g =
           (case exp_map p (map (map (f_mul (f_neg lr))) (spec_tangent_update D p g)) of
              Inl e \<Rightarrow> Inl e
            | Inr update \<Rightarrow>
                Inr (set_col0 (nan_inf_fallback p update)
                       (dim0_of (nan_inf_fallback p update))))"
  using tangent_update_rows [OF assms]
  by (simp add: step_param_def Let_def split: sum.splits)

theorem tangent_update_formula_witness:
  "tangent_update 2 [[Fin 2, Fin 3], [Fin 2, Fin 3]] [[Fin 3, Fin 0], [Fin 0, Fin 4]] =
     Inr [[Fin (- (27 / 25)), Fin (- (18 / 25))], [Fin (- (24 / 25)), Fin (- (16 / 25))]]"
proof -
  let ?p = "[[Fin 2, Fin 3], [Fin 2, Fin 3]]" and ?g = "[[Fin 3, Fin 0], [Fin 0, Fin 4]]"
  have "has_shape 2 2 ?p" and "has_shape 2 2 ?g" and "0 < (2::nat)"
    by (simp_all add: has_shape_def)
  from tangent_update_formula [OF this]
  have "tangent_update 2 ?p ?g = Inr (spec_tangent_update 2 ?p ?g)"
    by blast
  also have "spec_tangent_update 2 ?p ?g =
      [[Fin (- (27 / 25)), Fin (- (18 / 25))], [Fin (- (24 / 25)), Fin (- (16 / 25))]]"
    by (simp add: spec_tangent_update_def spec_project_row_def spec_riemannian_row_def
        f_norm_def f_sum_def f_sub_def lorentz_formula_def minkowski_def
        upt_0_2 rnd_small sqrt_25)
  finally show ?thesis .
qed

subsection \<open>The optimizer step\<close>

lemma half_sum_bounds:
  "(5 / 2 :: real) \<le> a \<Longrightarrow> a \<le> 3 \<Longrightarrow> 0 < b \<Longrightarrow> b \<le> 1 \<Longrightarrow>
   5 / 4 \<le> (a + b) / 2 \<and> (a + b) / 2 \<le> 2 \<and> (a - b) / 2 \<le> 2"
  by auto

lemma cosh_sinh_one_bounds:
  "5 / 4 \<le> cosh (1::real)" "cosh (1::real) \<le> 2" "0 < sinh (1::real)" "sinh (1::real) \<le> 2"
proof -
  have lo: "5 / 2 \<le> exp (1::real)"
    using exp_lower_Taylor_quadratic [of "1::real"] by simp
  have hi: "exp (1::real) \<le> 3"
    by (rule exp_le)
  have pos: "0 < exp (- 1 :: real)" "exp (- 1 :: real) \<le> 1"
    by simp_all
  note b = half_sum_bounds [OF lo hi pos]
  show "5 / 4 \<le> cosh (1::real)" "cosh (1::real) \<le> 2" "sinh (1::real) \<le> 2"
    unfolding cosh_field_def sinh_field_def using b by blast+
  show "0 < sinh (1::real)" by simp
qed

lemma rnd_cosh_one: "rnd (cosh 1) = Fin (cosh 1)"
  using cosh_sinh_one_bounds by (intro rnd_small) simp

lemma rnd_sinh_one: "rnd (sinh 1) = Fin (sinh 1)" "rnd (- sinh 1) = Fin (- sinh 1)"
  using cosh_sinh_one_bounds by (intro rnd_small; simp)+

lemma cosh_one_overflow: "rnd (cosh 1 * f32_max) = PInf"
proof -
  have "f32_threshold \<le> 5 / 4 * f32_max"
    by (simp add: f32_threshold_def f32_max_def)
  also have "\<dots> \<le> cosh 1 * f32_max"
    using cosh_sinh_one_bounds(1) by (intro mult_right_mono) (simp_all add: f32_max_def)
  finally show ?thesis
    by (simp add: rnd_def)
qed

lemma rnd_f32_max: "rnd f32_max = Fin f32_max" "rnd (f32_max * f32_max) = PInf"
  by (simp_all add: rnd_def f32_max_def f32_threshold_def)

lemma fallback_row:
  "length pr = length ur \<Longrightarrow>
   where_vec (map (\<lambda>a. isnan a \<or> isinf a) ur) pr ur = map2 keep_finite pr ur"
  by (induction pr ur rule: list_induct2) (simp_all add: where_vec_def keep_finite_def)

lemma fallback_rows:
  "same_shape p u \<Longrightarrow> nan_inf_fallback p u = map2 (map2 keep_finite) p u"
  unfolding same_shape_def
  by (induction p u rule: list_all2_induct)
     (simp_all add: nan_inf_fallback_def is_nan_inf_def where_mat_def fallback_row)

lemma keep_finite_all:
  "length pr = length ur \<Longrightarrow> list_all (\<lambda>a. isnan a \<or> isinf a) ur \<Longrightarrow>
   map2 keep_finite pr ur = pr"
  by (induction pr ur rule: list_induct2) (simp_all add: keep_finite_def)



lemma seq_map_returns:
  "list_all (\<lambda>x. \<exists>y. f x = Inr y) xs \<Longrightarrow> \<exists>ys. seq_map f xs = Inr ys"
  by (induction xs) auto

lemma has_shape_same: "has_shape B D a \<Longrightarrow> has_shape B D b \<Longrightarrow> same_shape a b"
  by (simp add: has_shape_def same_shape_def list_all2_conv_all_nth list_all_length)

lemma has_shape_map2:
  assumes "has_shape B D a" and "has_shape B D b"
    and "\<And>x y. length x = D \<Longrightarrow> length y = D \<Longrightarrow> length (f x y) = D"
  shows "has_shape B D (map2 f a b)"
proof -
  have "length (f x y) = D" if "(x, y) \<in> set (zip a b)" for x y
  proof (rule assms(3))
    from that have "x \<in> set a" and "y \<in> set b"
      by (auto dest: set_zip_leftD set_zip_rightD)
    then show "length x = D" and "length y = D"
      using assms(1,2) by (simp_all add: has_shape_def list_all_iff)
  qed
  then show ?thesis
    using assms(1,2) by (auto simp: has_shape_def list_all_iff)
qed

lemma has_shape_map:
  "has_shape B D a \<Longrightarrow> has_shape B D (map (map f) a)"
  by (simp add: has_shape_def list_all_iff)

lemma spec_tangent_shape:
  "has_shape B D p \<Longrightarrow> has_shape B D g \<Longrightarrow> has_shape B D (spec_tangent_update D p g)"
  unfolding spec_tangent_update_def
  by (rule has_shape_map2) (simp_all add: spec_project_row_def spec_riemannian_row_def)

lemma candidate_rows:
  assumes "has_shape B D p" and "has_shape B D g" and "0 < D"
  shows "\<exists>u. candidate_update lr D p g = Inr u \<and> has_shape B D u"
proof -
  let ?v = "map (map (f_mul (f_neg lr))) (spec_tangent_update D p g)"
  let ?u = "map2 (\<lambda>xr vr. exp_row (f_sqrt (self_product vr)) xr vr) p ?v"
  have v: "has_shape B D ?v"
    by (rule has_shape_map [OF spec_tangent_shape [OF assms(1,2)]])
  have "exp_map p ?v = Inr ?u"
    by (rule exp_map_rows [OF has_shape_same [OF assms(1) v]
          has_shape_nonempty [OF v assms(3)]])
  then have "candidate_update lr D p g = Inr ?u"
    by (simp add: candidate_update_def tangent_update_rows [OF assms])
  moreover have "has_shape B D ?u"
    by (rule has_shape_map2 [OF assms(1) v]) (simp add: exp_row_def)
  ultimately show ?thesis by blast
qed

lemma set_col0_dim0:
  "set_col0 k (dim0_of k) = map (\<lambda>r. r[0 := f_sqrt (f_add (Fin 1) (f_norm (tl r)))]) k"
  by (induction k) (simp_all add: set_col0_def dim0_of_def)

lemma step_param_stored:
  assumes "candidate_update lr D p g = Inr u" and "has_shape B D p" and "has_shape B D u"
  shows "step_param lr D p g =
           Inr (map (\<lambda>r. r[0 := f_sqrt (f_add (Fin 1) (f_norm (tl r)))])
                  (map2 (map2 keep_finite) p u))"
proof -
  from assms(1) obtain proj where "tangent_update D p g = Inr proj"
    and "exp_map p (map (map (f_mul (f_neg lr))) proj) = Inr u"
    by (cases "tangent_update D p g") (simp_all add: candidate_update_def)
  then show ?thesis
    by (simp add: step_param_def Let_def fallback_rows [OF has_shape_same [OF assms(2,3)]]
        set_col0_dim0)
qed

lemma tl_update_first: "tl (xs[0 := a]) = tl xs"
  by (cases xs) simp_all

lemma step_one_returns:
  assumes "wf_param p"
  shows "\<exists>q. step_one lr p = Inr q"
proof (cases "grad p")
  case None
  then show ?thesis by (simp add: step_one_def)
next
  case (Some g)
  obtain B D where shape: "shape p = (B, D)"
    by (cases "shape p")
  from assms Some shape have wf: "has_shape B D (data p)" "has_shape B D g" "0 < D"
    by (simp_all add: wf_param_def)
  from candidate_rows [OF wf] obtain u
    where "candidate_update lr D (data p) g = Inr u" "has_shape B D u"
    by blast
  from step_param_stored [OF this(1) wf(1) this(2)] Some shape show ?thesis
    by (simp add: step_one_def)
qed

lemma step_group_returns:
  "list_all wf_param (params gp) \<Longrightarrow> \<exists>gq. step_group gp = Inr gq"
proof -
  assume "list_all wf_param (params gp)"
  then have "list_all (\<lambda>p. \<exists>q. step_one (learning_rate gp) p = Inr q) (params gp)"
    by (auto simp: list_all_iff step_one_returns)
  from seq_map_returns [OF this] show ?thesis
    by (auto simp: step_group_def)
qed

lemma overflow_tangent:
  "tangent_update 3 [[Fin 1, Fin f32_max, Fin 0]] [[Fin 0, Fin 0, Fin 1]] =
     Inr [[Fin 0, Fin 0, Fin 1]]"
proof -
  let ?p = "[[Fin 1, Fin f32_max, Fin 0]]" and ?g = "[[Fin 0, Fin 0, Fin 1]]"
  have gl: "metric_matrix 3 =
      Inr [[Fin (- 1), Fin 0, Fin 0], [Fin 0, Fin 1, Fin 0], [Fin 0, Fin 0, Fin 1]]"
    by (simp add: metric_matrix_def eye_def upt_0_3)
  have h: "riemannian_grad
      [[Fin (- 1), Fin 0, Fin 0], [Fin 0, Fin 1, Fin 0], [Fin 0, Fin 0, Fin 1]] ?g = ?g"
    by (simp add: riemannian_grad_def f_norm_def f_sum_def matmul_def ncols_def upt_0_3
        rnd_small)
  have pp: "lorentz_scalar_product ?p ?p = Inr [PInf]"
    by (simp add: lorentz_scalar_product_def lorentz_row_def f_sum_def f_sub_def rnd_small
        rnd_f32_max)
  have ph: "lorentz_scalar_product ?p ?g = Inr [Fin 0]"
    by (simp add: lorentz_scalar_product_def lorentz_row_def f_sum_def f_sub_def rnd_small)
  show ?thesis
    unfolding tangent_update_def gl
    by (simp add: h project_def pp ph sub_mat_def mul_col_def f_sub_def rnd_small)
qed

lemma overflow_direction:
  "map (map (f_mul (f_neg (Fin 1)))) [[Fin 0, Fin 0, Fin 1]] = [[Fin 0, Fin 0, Fin (- 1)]]"
  by (simp add: rnd_small)

lemma overflow_exp_map:
  "exp_map [[Fin 1, Fin f32_max, Fin 0]] [[Fin 0, Fin 0, Fin (- 1)]] =
     Inr [[Fin (cosh 1), PInf, Fin (- sinh 1)]]"
proof -
  have tn: "tangent_norm [[Fin 0, Fin 0, Fin (- 1)]] = Inr [Fin 1]"
    by (simp add: tangent_norm_def lorentz_scalar_product_def lorentz_row_def f_sum_def
        f_sub_def rnd_small)
  show ?thesis
    by (simp add: exp_map_def tn where_mat_def where_vec_def repeat_col_def add_mat_def
        mul_col_def div_col_def f_gt_def rnd_cosh_one rnd_sinh_one cosh_one_overflow rnd_small)
qed

text \<open>
  C3, as the code has it. For a parameter of shape \<open>(B, D)\<close> with at least one column
  and a gradient of the same shape, let \<open>u\<close> be the candidate update
  \<open>exp_map(p, -learning_rate * proj)\<close>. \<open>RSGD.step\<close> stores a tensor \<open>r\<close> of the same
  shape in which every entry outside column 0 is the entry of \<open>u\<close>, unless that entry
  is NaN or infinite: then it is the entry of \<open>p\<close>. The replacement is entry by entry,
  the other entries of the row are kept. Coordinate 0 of every row is recomputed from
  the stored remaining coordinates, so a row whose candidate entries are all NaN or
  infinite keeps the parameter's coordinates outside column 0. On well-formed
  parameters \<open>step\<close> returns, whatever the entries of the gradients are.
\<close>

theorem step_replaces_nan_inf_entries:
  "(has_shape B D p \<and> has_shape B D g \<and> 0 < D \<longrightarrow>
      (\<exists>u r. candidate_update lr D p g = Inr u \<and> has_shape B D u \<and>
         step [\<lparr>params = [\<lparr>data = p, shape = (B, D), grad = Some g\<rparr>], learning_rate = lr\<rparr>] =
           Inr [\<lparr>params = [\<lparr>data = r, shape = (B, D), grad = Some g\<rparr>],
                learning_rate = lr\<rparr>] \<and>
         has_shape B D r \<and>
         (\<forall>i<B. \<forall>j<D. 0 < j \<longrightarrow>
            r ! i ! j = (if isnan (u ! i ! j) \<or> isinf (u ! i ! j) then p ! i ! j
                         else u ! i ! j)) \<and>
         (\<forall>i<B. r ! i ! 0 = f_sqrt (f_add (Fin 1) (f_norm (tl (r ! i))))) \<and>
         (\<forall>i<B. list_all (\<lambda>a. isnan a \<or> isinf a) (u ! i) \<longrightarrow> tl (r ! i) = tl (p ! i)))) \<and>
   (list_all (\<lambda>gp. list_all wf_param (params gp)) param_groups \<longrightarrow>
      (\<exists>r. step param_groups = Inr r))"
proof (intro conjI impI)
  assume h: "has_shape B D p \<and> has_shape B D g \<and> 0 < D"
  then have p: "has_shape B D p" and g: "has_shape B D g" and D: "0 < D"
    by blast+
  from candidate_rows [OF p g D] obtain u
    where u: "candidate_update lr D p g = Inr u" "has_shape B D u"
    by blast
  let ?k = "map2 (map2 keep_finite) p u"
  let ?r = "map (\<lambda>r. r[0 := f_sqrt (f_add (Fin 1) (f_norm (tl r)))]) ?k"
  have stored: "step_param lr D p g = Inr ?r"
    by (rule step_param_stored [OF u(1) p u(2)])
  have len: "length p = B" "length u = B"
    using p u(2) by (simp_all add: has_shape_def)
  have rows: "length (p ! i) = D" "length (u ! i) = D" if "i < B" for i
    using p u(2) that by (simp_all add: has_shape_def list_all_length)
  have k_row: "?k ! i = map2 keep_finite (p ! i) (u ! i)" if "i < B" for i
    using that len by simp
  have r_row: "?r ! i = (?k ! i)[0 := f_sqrt (f_add (Fin 1) (f_norm (tl (?k ! i))))]"
    if "i < B" for i
    using that len by simp
  have k_len: "length (?k ! i) = D" if "i < B" for i
    unfolding k_row [OF that] using rows [OF that] by simp
  have step_eq: "step [\<lparr>params = [\<lparr>data = p, shape = (B, D), grad = Some g\<rparr>],
        learning_rate = lr\<rparr>] =
      Inr [\<lparr>params = [\<lparr>data = ?r, shape = (B, D), grad = Some g\<rparr>], learning_rate = lr\<rparr>]"
    by (simp add: step_def step_group_def step_one_def stored)
  have "has_shape B D ?k"
    by (rule has_shape_map2 [OF p u(2)]) simp
  then have shape_r: "has_shape B D ?r"
    by (simp add: has_shape_def list_all_iff)
  have entries: "\<forall>i<B. \<forall>j<D. 0 < j \<longrightarrow>
      ?r ! i ! j = (if isnan (u ! i ! j) \<or> isinf (u ! i ! j) then p ! i ! j else u ! i ! j)"
  proof (intro allI impI)
    fix i j
    assume i: "i < B" and j: "j < D" and j0: "0 < j"
    have "?r ! i ! j = ?k ! i ! j"
      unfolding r_row [OF i] using j0 by simp
    also have "\<dots> = keep_finite (p ! i ! j) (u ! i ! j)"
      unfolding k_row [OF i] using rows [OF i] j by simp
    finally show "?r ! i ! j =
        (if isnan (u ! i ! j) \<or> isinf (u ! i ! j) then p ! i ! j else u ! i ! j)"
      by (simp add: keep_finite_def)
  qed
  have tails: "tl (?r ! i) = tl (?k ! i)" if "i < B" for i
    unfolding r_row [OF that] by (rule tl_update_first)
  have first: "\<forall>i<B. ?r ! i ! 0 = f_sqrt (f_add (Fin 1) (f_norm (tl (?r ! i))))"
  proof (intro allI impI)
    fix i
    assume i: "i < B"
    have "0 < length (?k ! i)"
      using k_len [OF i] D by (simp only:)
    then have "?r ! i ! 0 = f_sqrt (f_add (Fin 1) (f_norm (tl (?k ! i))))"
      unfolding r_row [OF i] by (rule nth_list_update_eq)
    then show "?r ! i ! 0 = f_sqrt (f_add (Fin 1) (f_norm (tl (?r ! i))))"
      by (simp only: tails [OF i])
  qed
  have reverted: "\<forall>i<B. list_all (\<lambda>a. isnan a \<or> isinf a) (u ! i) \<longrightarrow>
      tl (?r ! i) = tl (p ! i)"
  proof (intro allI impI)
    fix i
    assume i: "i < B" and bad: "list_all (\<lambda>a. isnan a \<or> isinf a) (u ! i)"
    have "length (p ! i) = length (u ! i)"
      using rows [OF i] by simp
    from keep_finite_all [OF this bad] show "tl (?r ! i) = tl (p ! i)"
      unfolding tails [OF i] k_row [OF i] by (simp only:)
  qed
  from u step_eq shape_r entries first reverted
  show "\<exists>u r. candidate_update lr D p g = Inr u \<and> has_shape B D u \<and>
         step [\<lparr>params = [\<lparr>data = p, shape = (B, D), grad = Some g\<rparr>], learning_rate = lr\<rparr>] =
           Inr [\<lparr>params = [\<lparr>data = r, shape = (B, D), grad = Some g\<rparr>],
                learning_rate = lr\<rparr>] \<and>
         has_shape B D r \<and>
         (\<forall>i<B. \<forall>j<D. 0 < j \<longrightarrow>
            r ! i ! j = (if isnan (u ! i ! j) \<or> isinf (u ! i ! j) then p ! i ! j
                         else u ! i ! j)) \<and>
         (\<forall>i<B. r ! i ! 0 = f_sqrt (f_add (Fin 1) (f_norm (tl (r ! i))))) \<and>
         (\<forall>i<B. list_all (\<lambda>a. isnan a \<or> isinf a) (u ! i) \<longrightarrow> tl (r ! i) = tl (p ! i))"
    by blast
next
  assume "list_all (\<lambda>gp. list_all wf_param (params gp)) param_groups"
  then have "list_all (\<lambda>gp. \<exists>gq. step_group gp = Inr gq) param_groups"
    by (auto simp: list_all_iff step_group_returns)
  from seq_map_returns [OF this] show "\<exists>r. step param_groups = Inr r"
    by (simp add: step_def)
qed

theorem step_replaces_nan_inf_entries_witness:
  "(\<exists>r. step [\<lparr>params = [\<lparr>data = [[Fin 1, Fin f32_max, Fin 0]], shape = (1, 3),
                            grad = Some [[Fin 0, Fin 0, Fin 1]]\<rparr>],
               learning_rate = Fin 1\<rparr>] =
          Inr [\<lparr>params = [\<lparr>data = r, shape = (1, 3), grad = Some [[Fin 0, Fin 0, Fin 1]]\<rparr>],
               learning_rate = Fin 1\<rparr>] \<and>
        r ! 0 ! 1 = Fin f32_max \<and> r ! 0 ! 2 = Fin (- sinh 1)) \<and>
   (\<exists>r. step [\<lparr>params = [\<lparr>data = [[Fin 2, Fin 3]], shape = (1, 2),
                            grad = Some [[NaN, PInf]]\<rparr>],
               learning_rate = Fin (1 / 10)\<rparr>] = Inr r)"
proof -
  let ?p = "[[Fin 1, Fin f32_max, Fin 0]]" and ?g = "[[Fin 0, Fin 0, Fin 1]]"
  let ?gs = "[\<lparr>params = [\<lparr>data = [[Fin 2, Fin 3]], shape = (1, 2),
                            grad = Some [[NaN, PInf]]\<rparr>],
               learning_rate = Fin (1 / 10)\<rparr>]"
  have cand: "candidate_update (Fin 1) 3 ?p ?g = Inr [[Fin (cosh 1), PInf, Fin (- sinh 1)]]"
    by (simp only: candidate_update_def overflow_tangent sum.case overflow_direction
        overflow_exp_map)
  have "has_shape 1 3 ?p \<and> has_shape 1 3 ?g \<and> 0 < (3::nat)"
    by (simp add: has_shape_def)
  with step_replaces_nan_inf_entries [of 1 3 ?p ?g "Fin 1" ?gs]
  obtain u r where u: "candidate_update (Fin 1) 3 ?p ?g = Inr u"
    and st: "step [\<lparr>params = [\<lparr>data = ?p, shape = (1, 3), grad = Some ?g\<rparr>],
               learning_rate = Fin 1\<rparr>] =
          Inr [\<lparr>params = [\<lparr>data = r, shape = (1, 3), grad = Some ?g\<rparr>],
               learning_rate = Fin 1\<rparr>]"
    and entries: "\<forall>i<1. \<forall>j<3. 0 < j \<longrightarrow>
            r ! i ! j = (if isnan (u ! i ! j) \<or> isinf (u ! i ! j) then ?p ! i ! j
                         else u ! i ! j)"
    by blast
  from u cand have "u = [[Fin (cosh 1), PInf, Fin (- sinh 1)]]"
    by simp
  with entries have "r ! 0 ! 1 = Fin f32_max" and "r ! 0 ! 2 = Fin (- sinh 1)"
    by simp_all
  with st have first: "\<exists>r. step [\<lparr>params = [\<lparr>data = ?p, shape = (1, 3), grad = Some ?g\<rparr>],
               learning_rate = Fin 1\<rparr>] =
          Inr [\<lparr>params = [\<lparr>data = r, shape = (1, 3), grad = Some ?g\<rparr>],
               learning_rate = Fin 1\<rparr>] \<and>
        r ! 0 ! 1 = Fin f32_max \<and> r ! 0 ! 2 = Fin (- sinh 1)"
    by blast
  have "list_all (\<lambda>gp. list_all wf_param (params gp)) ?gs"
    by (simp add: wf_param_def has_shape_def)
  then have "\<exists>r. step ?gs = Inr r"
    using step_replaces_nan_inf_entries [of 1 3 ?p ?g "Fin 1" ?gs] by blast
  with first show ?thesis by blast
qed

text \<open>
  C3 as stated fails. With the parameter \<open>[[1, f32_max, 0]]\<close>, the gradient
  \<open>[[0, 0, 1]]\<close> and learning rate \<open>1\<close>, the candidate update is the row
  \<open>[cosh 1, inf, - sinh 1]\<close>: \<open>cosh 1 * f32_max\<close> overflows. The row holds an infinite
  entry, yet only that entry is replaced: after the fallback the row is
  \<open>[cosh 1, f32_max, - sinh 1]\<close>, not the parameter's row, and the step moves
  coordinate 2. And on a parameter without columns, of shape \<open>(1, 0)\<close>, the step raises
  IndexError when it writes \<open>gl[0, 0]\<close>, before it reads the gradient.
\<close>

theorem nan_inf_row_counterexample:
  "tangent_update 3 [[Fin 1, Fin f32_max, Fin 0]] [[Fin 0, Fin 0, Fin 1]] =
     Inr [[Fin 0, Fin 0, Fin 1]] \<and>
   exp_map [[Fin 1, Fin f32_max, Fin 0]] (map (map (f_mul (f_neg (Fin 1)))) [[Fin 0, Fin 0, Fin 1]]) =
     Inr [[Fin (cosh 1), PInf, Fin (- sinh 1)]] \<and>
   nan_inf_fallback [[Fin 1, Fin f32_max, Fin 0]] [[Fin (cosh 1), PInf, Fin (- sinh 1)]] =
     [[Fin (cosh 1), Fin f32_max, Fin (- sinh 1)]] \<and>
   [[Fin (cosh 1), Fin f32_max, Fin (- sinh 1)]] \<noteq> [[Fin 1, Fin f32_max, Fin 0]] \<and>
   step_param (Fin 1) 3 [[Fin 1, Fin f32_max, Fin 0]] [[Fin 0, Fin 0, Fin 1]] \<noteq>
     Inr [[Fin 1, Fin f32_max, Fin 0]] \<and>
   step_param (Fin 1) 0 [[]] [[]] = Inl IndexError"
proof -
  let ?p = "[[Fin 1, Fin f32_max, Fin 0]]" and ?g = "[[Fin 0, Fin 0, Fin 1]]"
  note proj = overflow_tangent and v = overflow_direction
  have em: "exp_map ?p (map (map (f_mul (f_neg (Fin 1)))) ?g) =
      Inr [[Fin (cosh 1), PInf, Fin (- sinh 1)]]"
    by (simp only: overflow_direction overflow_exp_map)
  have fb: "nan_inf_fallback ?p [[Fin (cosh 1), PInf, Fin (- sinh 1)]] =
      [[Fin (cosh 1), Fin f32_max, Fin (- sinh 1)]]"
    by (simp add: nan_inf_fallback_def is_nan_inf_def where_mat_def where_vec_def)
  have moved: "Fin (- sinh 1) \<noteq> Fin 0"
    by simp
  have "step_param (Fin 1) 3 ?p ?g =
      Inr (set_col0 [[Fin (cosh 1), Fin f32_max, Fin (- sinh 1)]]
            (dim0_of [[Fin (cosh 1), Fin f32_max, Fin (- sinh 1)]]))"
    by (simp only: step_param_def proj sum.case em fb Let_def)
  then have "step_param (Fin 1) 3 ?p ?g \<noteq> Inr ?p"
    using moved by (simp add: set_col0_def dim0_of_def)
  moreover have "step_param (Fin 1) 0 [[]] [[]] = Inl IndexError"
    by (simp add: step_param_def tangent_update_def metric_matrix_def)
  ultimately show ?thesis
    using proj em fb moved by simp
qed

subsection \<open>The forward pass\<close>



lemma zip_concat:
  "list_all2 (\<lambda>xs ys. length xs = length ys) xss yss \<Longrightarrow>
   zip (concat xss) (concat yss) = concat (map2 zip xss yss)"
  by (induction xss yss rule: list_all2_induct) simp_all



lemma f_neg_neg: "f_neg (f_neg a) = a"
  by (cases a) simp_all






















end
